theory Spec2Isabelle
  imports Main
begin

section \<open>JavaScript values used by \<open>src/utils/searchUtils.ts\<close>\<close>

text \<open>
  A JavaScript string is a sequence of UTF-16 code units. A code unit is modelled by its
  number (a natural number below \<open>0x10000\<close>); the regular expressions of the module have
  no \<open>u\<close> flag, so they work on single code units as the model does.

  A value of TypeScript type \<open>string\<close> that may be \<open>undefined\<close> at run time is a
  \<open>jsstring option\<close>, \<open>None\<close> being \<open>undefined\<close>.
\<close>

type_synonym jschar = nat
type_synonym jsstring = "jschar list"

definition ascii :: "string \<Rightarrow> jsstring" where
  "ascii s = map of_char s"

text \<open>
  Calling a method or reading a property of \<open>undefined\<close> throws a \<open>TypeError\<close>. It is the
  only way the module can throw, so it is the only error of the model.
\<close>

datatype error = TypeError

definition receiver :: "'a option \<Rightarrow> error + 'a" where
  "receiver v = (case v of None \<Rightarrow> Inl TypeError | Some x \<Rightarrow> Inr x)"

definition bindE :: "error + 'a \<Rightarrow> ('a \<Rightarrow> error + 'b) \<Rightarrow> error + 'b" where
  "bindE m f = (case m of Inl e \<Rightarrow> Inl e | Inr x \<Rightarrow> f x)"

text \<open>\<open>!text\<close> for a string or \<open>undefined\<close>: true for \<open>undefined\<close> and for \<open>''\<close>.\<close>

definition falsy :: "jsstring option \<Rightarrow> bool" where
  "falsy text = (case text of None \<Rightarrow> True | Some s \<Rightarrow> s = [])"

subsection \<open>Built-ins of the language\<close>

text \<open>
  White space of ECMAScript (\<open>WhiteSpace\<close> and \<open>LineTerminator\<close>): what
  \<open>String.prototype.trim\<close> strips and what \<open>\s\<close> matches.
\<close>

definition isWhiteSpace :: "jschar \<Rightarrow> bool" where
  "isWhiteSpace c =
     (c = 0x9 \<or> c = 0xA \<or> c = 0xB \<or> c = 0xC \<or> c = 0xD \<or> c = 0x20 \<or> c = 0xA0 \<or>
      c = 0x1680 \<or> (0x2000 \<le> c \<and> c \<le> 0x200A) \<or> c = 0x2028 \<or> c = 0x2029 \<or>
      c = 0x202F \<or> c = 0x205F \<or> c = 0x3000 \<or> c = 0xFEFF)"

definition trim :: "jsstring \<Rightarrow> jsstring" where
  "trim s = rev (dropWhile isWhiteSpace (rev (dropWhile isWhiteSpace s)))"

text \<open>\<open>t.startsWith(s)\<close> and \<open>t.includes(s)\<close>.\<close>

definition startsWith :: "jsstring \<Rightarrow> jsstring \<Rightarrow> bool" where
  "startsWith t s = (take (length s) t = s)"

fun includes_str :: "jsstring \<Rightarrow> jsstring \<Rightarrow> bool" where
  "includes_str [] s = (s = [])"
| "includes_str (c # cs) s = (startsWith (c # cs) s \<or> includes_str cs s)"

text \<open>
  \<open>s.replace(/[class]/g, '')\<close>, \<open>s.replace(/a/g, 'b')\<close>, \<open>s.replace(/[class]/g, 'b')\<close> and
  \<open>s.replace(/[class]+/g, 'b')\<close> for a class of code units and single code units
  \<open>a\<close>, \<open>b\<close>.
\<close>

definition removeClass :: "(jschar \<Rightarrow> bool) \<Rightarrow> jsstring \<Rightarrow> jsstring" where
  "removeClass cls s = filter (\<lambda>c. \<not> cls c) s"

definition replaceChar :: "jschar \<Rightarrow> jschar \<Rightarrow> jsstring \<Rightarrow> jsstring" where
  "replaceChar a b s = map (\<lambda>c. if c = a then b else c) s"

definition replaceClass :: "(jschar \<Rightarrow> bool) \<Rightarrow> jschar \<Rightarrow> jsstring \<Rightarrow> jsstring" where
  "replaceClass cls b s = map (\<lambda>c. if cls c then b else c) s"

function replaceRuns :: "(jschar \<Rightarrow> bool) \<Rightarrow> jschar \<Rightarrow> jsstring \<Rightarrow> jsstring" where
  "replaceRuns cls b [] = []"
| "replaceRuns cls b (c # cs) =
     (if cls c then b # replaceRuns cls b (dropWhile cls cs) else c # replaceRuns cls b cs)"
  by pat_completeness auto
termination
  by (relation "measure (\<lambda>(cls, b, s). length s)")
     (auto simp: length_dropWhile_le less_Suc_eq_le)

text \<open>
  \<open>s.split(/[class]+/)\<close>, after the algorithm of \<open>String.prototype.split\<close>: the pieces
  between the matches, in order. A match at the start or at the end of \<open>s\<close> leaves an
  empty piece there, and the empty string splits into one empty piece. \<open>piece\<close> is the
  piece read so far.
\<close>

function splitFrom :: "(jschar \<Rightarrow> bool) \<Rightarrow> jsstring \<Rightarrow> jsstring \<Rightarrow> jsstring list" where
  "splitFrom cls piece [] = [piece]"
| "splitFrom cls piece (c # cs) =
     (if cls c then piece # splitFrom cls [] (dropWhile cls cs)
      else splitFrom cls (piece @ [c]) cs)"
  by pat_completeness auto
termination
  by (relation "measure (\<lambda>(cls, piece, s). length s)")
     (auto simp: length_dropWhile_le less_Suc_eq_le)

definition split :: "(jschar \<Rightarrow> bool) \<Rightarrow> jsstring \<Rightarrow> jsstring list" where
  "split cls s = splitFrom cls [] s"

text \<open>
  \<open>String.prototype.toLowerCase\<close> and \<open>String.prototype.normalize('NFD')\<close> are driven by
  the tables of the Unicode standard, which are no part of the repository. The model
  takes the two built-ins as a parameter: what is proved for every \<open>runtime\<close> holds for
  the real one. Both are total on strings (neither throws on a string receiver).
\<close>

record runtime =
  toLowerCase :: "jsstring \<Rightarrow> jsstring"
  normalizeNFD :: "jsstring \<Rightarrow> jsstring"

text \<open>
  For the concrete inputs of the examples, \<open>basicRuntime\<close> gives the two built-ins on
  strings made of Basic Latin characters (U+0000 to U+007F) and of Greek letters from
  U+0386 to U+03CE, capital sigma apart (its lower case depends on its position in the
  word): there the lower case and the canonical decomposition are those of the
  Unicode tables, code unit by code unit. Other code units are left as they are, which
  is not what the built-ins do; no example uses them.
\<close>

definition lowerUnit :: "jschar \<Rightarrow> jschar" where
  "lowerUnit c =
     (if 0x41 \<le> c \<and> c \<le> 0x5A then c + 0x20
      else if c = 0x386 then 0x3AC
      else if 0x388 \<le> c \<and> c \<le> 0x38A then c + 0x25
      else if c = 0x38C then 0x3CC
      else if c = 0x38E \<or> c = 0x38F then c + 0x3F
      else if 0x391 \<le> c \<and> c \<le> 0x3AB \<and> c \<noteq> 0x3A2 then c + 0x20
      else c)"

definition decomposeUnit :: "jschar \<Rightarrow> jsstring" where
  "decomposeUnit c =
     (if c = 0x386 then [0x391, 0x301]
      else if c = 0x388 then [0x395, 0x301]
      else if c = 0x389 then [0x397, 0x301]
      else if c = 0x38A then [0x399, 0x301]
      else if c = 0x38C then [0x39F, 0x301]
      else if c = 0x38E then [0x3A5, 0x301]
      else if c = 0x38F then [0x3A9, 0x301]
      else if c = 0x390 then [0x3B9, 0x308, 0x301]
      else if c = 0x3AA then [0x399, 0x308]
      else if c = 0x3AB then [0x3A5, 0x308]
      else if c = 0x3AC then [0x3B1, 0x301]
      else if c = 0x3AD then [0x3B5, 0x301]
      else if c = 0x3AE then [0x3B7, 0x301]
      else if c = 0x3AF then [0x3B9, 0x301]
      else if c = 0x3B0 then [0x3C5, 0x308, 0x301]
      else if c = 0x3CA then [0x3B9, 0x308]
      else if c = 0x3CB then [0x3C5, 0x308]
      else if c = 0x3CC then [0x3BF, 0x301]
      else if c = 0x3CD then [0x3C5, 0x301]
      else if c = 0x3CE then [0x3C9, 0x301]
      else [c])"

definition basicRuntime :: runtime where
  "basicRuntime =
     \<lparr> toLowerCase = map lowerUnit,
       normalizeNFD = (\<lambda>s. concat (map decomposeUnit s)) \<rparr>"

section \<open>The module\<close>

subsection \<open>\<open>normalizeSearchText\<close>\<close>

text \<open>The classes of the regular expressions \<open>/[\u0300-\u036f]/\<close> and \<open>/[/\\]/\<close>.\<close>

definition isCombiningMark :: "jschar \<Rightarrow> bool" where
  "isCombiningMark c = (0x300 \<le> c \<and> c \<le> 0x36F)"

definition isSlash :: "jschar \<Rightarrow> bool" where
  "isSlash c = (c = 0x2F \<or> c = 0x5C)"

text \<open>
  The ten replacements of single Greek letters, in the order of the source: the seven
  vowels with tonos, iota and upsilon with dialytika and tonos, and the final sigma.
\<close>

definition foldGreek :: "jsstring \<Rightarrow> jsstring" where
  "foldGreek s =
     (let s1 = replaceChar 0x3AC 0x3B1 s;
          s2 = replaceChar 0x3AD 0x3B5 s1;
          s3 = replaceChar 0x3AE 0x3B7 s2;
          s4 = replaceChar 0x3AF 0x3B9 s3;
          s5 = replaceChar 0x3CC 0x3BF s4;
          s6 = replaceChar 0x3CD 0x3C5 s5;
          s7 = replaceChar 0x3CE 0x3C9 s6;
          s8 = replaceChar 0x390 0x3B9 s7;
          s9 = replaceChar 0x3B0 0x3C5 s8
      in replaceChar 0x3C2 0x3C3 s9)"

text \<open>
  The chain of method calls on the string \<open>text\<close>, from \<open>toLowerCase\<close> to the last
  \<open>replace\<close>, and the function with its guard \<open>if (!text) return ''\<close> before it.
\<close>

definition normalizeChain :: "runtime \<Rightarrow> jsstring \<Rightarrow> jsstring" where
  "normalizeChain rt text =
     (let lowered = toLowerCase rt text;
          trimmed = trim lowered;
          decomposed = normalizeNFD rt trimmed;
          unaccented = removeClass isCombiningMark decomposed;
          folded = foldGreek unaccented;
          unslashed = replaceClass isSlash 0x20 folded
      in replaceRuns isWhiteSpace 0x20 unslashed)"

definition normalizeSearchText :: "runtime \<Rightarrow> jsstring option \<Rightarrow> error + jsstring" where
  "normalizeSearchText rt text =
     (if falsy text then Inr []
      else bindE (receiver text) (\<lambda>t. Inr (normalizeChain rt t)))"

subsection \<open>\<open>tokenize\<close>\<close>

text \<open>The class of \<open>/[\s\-\/,]+/\<close>.\<close>

definition isSeparator :: "jschar \<Rightarrow> bool" where
  "isSeparator c = (isWhiteSpace c \<or> c = 0x2D \<or> c = 0x2F \<or> c = 0x2C)"

definition tokenize :: "runtime \<Rightarrow> jsstring option \<Rightarrow> error + jsstring list" where
  "tokenize rt text =
     bindE (normalizeSearchText rt text) (\<lambda>normalized.
       Inr (filter (\<lambda>token. length token \<ge> 2) (split isSeparator normalized)))"

subsection \<open>\<open>matchesSearch\<close>\<close>

text \<open>
  The inner loop over the target tokens, leaving at the first match (\<open>break\<close>), and the
  outer loop over the search tokens, returning \<open>false\<close> at the first search token
  without a match.
\<close>

fun tokenMatched :: "jsstring \<Rightarrow> jsstring list \<Rightarrow> bool" where
  "tokenMatched searchToken [] = False"
| "tokenMatched searchToken (targetToken # rest) =
     (if targetToken = searchToken then True
      else if startsWith targetToken searchToken \<and> length searchToken \<ge> 3 then True
      else if includes_str targetToken searchToken \<and> length searchToken \<ge> 4 then True
      else tokenMatched searchToken rest)"

fun allTokensMatch :: "jsstring list \<Rightarrow> jsstring list \<Rightarrow> bool" where
  "allTokensMatch [] targetTokens = True"
| "allTokensMatch (searchToken # rest) targetTokens =
     (if \<not> tokenMatched searchToken targetTokens then False
      else allTokensMatch rest targetTokens)"

definition matchesSearch ::
  "runtime \<Rightarrow> jsstring option \<Rightarrow> jsstring option \<Rightarrow> error + bool" where
  "matchesSearch rt searchTerm targetText =
     (if falsy searchTerm \<or> falsy targetText then Inr False
      else bindE (normalizeSearchText rt searchTerm) (\<lambda>normalizedSearch.
           bindE (normalizeSearchText rt targetText) (\<lambda>normalizedTarget.
        if length normalizedSearch < 2 then Inr False
        else if includes_str normalizedTarget normalizedSearch then Inr True
        else bindE (tokenize rt searchTerm) (\<lambda>searchTokens.
          if length searchTokens = 0 then Inr False
          else bindE (tokenize rt targetText) (\<lambda>targetTokens.
            if length targetTokens = 0 then Inr False
            else Inr (allTokensMatch searchTokens targetTokens))))))"

subsection \<open>\<open>matchesSearchArray\<close>\<close>

text \<open>\<open>items.some(f)\<close>: stops at the first item on which \<open>f\<close> is true.\<close>

fun some :: "('a \<Rightarrow> error + bool) \<Rightarrow> 'a list \<Rightarrow> error + bool" where
  "some f [] = Inr False"
| "some f (item # items) = bindE (f item) (\<lambda>b. if b then Inr True else some f items)"

definition matchesSearchArray ::
  "runtime \<Rightarrow> jsstring option \<Rightarrow> jsstring list option \<Rightarrow> error + bool" where
  "matchesSearchArray rt searchTerm items =
     (if falsy searchTerm then Inr False
      else if items = None then Inr False
      else bindE (receiver items) (\<lambda>xs.
        if length xs = 0 then Inr False
        else some (\<lambda>item. matchesSearch rt searchTerm (Some item)) xs))"

subsection \<open>\<open>searchProduct\<close>\<close>

text \<open>The interface \<open>SearchableProduct\<close>; the fields marked \<open>?\<close> may be \<open>undefined\<close>.\<close>

record SearchableProduct =
  name :: jsstring
  nameEn :: jsstring
  description :: jsstring
  descriptionEn :: "jsstring option"
  colors :: "jsstring list"
  materials :: "jsstring list"
  features :: "jsstring list"
  tags :: "jsstring list option"
  category :: "jsstring option"
  subcategory :: "jsstring option"

text \<open>\<open>if (cond) return true;\<close> followed by the rest of the function.\<close>

definition returnTrueIf :: "error + bool \<Rightarrow> error + bool \<Rightarrow> error + bool" where
  "returnTrueIf cond rest = bindE cond (\<lambda>b. if b then Inr True else rest)"

text \<open>
  \<open>field && matchesSearch(searchTerm, field)\<close> for an optional string (falsy when
  \<open>undefined\<close> or empty) and \<open>field && matchesSearchArray(searchTerm, field)\<close> for an
  optional array (falsy only when \<open>undefined\<close>), as conditions of an \<open>if\<close>.
\<close>

definition definedAndMatches ::
  "runtime \<Rightarrow> jsstring option \<Rightarrow> jsstring option \<Rightarrow> error + bool" where
  "definedAndMatches rt searchTerm field =
     (if falsy field then Inr False else matchesSearch rt searchTerm field)"

definition definedAndMatchesArray ::
  "runtime \<Rightarrow> jsstring option \<Rightarrow> jsstring list option \<Rightarrow> error + bool" where
  "definedAndMatchesArray rt searchTerm field =
     (if field = None then Inr False else matchesSearchArray rt searchTerm field)"

definition searchProduct ::
  "runtime \<Rightarrow> SearchableProduct option \<Rightarrow> jsstring option \<Rightarrow> error + bool" where
  "searchProduct rt product searchTerm =
     (if falsy searchTerm then Inr True
      else bindE (receiver searchTerm) (\<lambda>term.
        if length (trim term) = 0 then Inr True
        else if product = None then Inr False
        else bindE (normalizeSearchText rt searchTerm) (\<lambda>normalizedSearch.
          if length normalizedSearch < 2 then Inr False
          else bindE (receiver product) (\<lambda>p.
            returnTrueIf (matchesSearch rt searchTerm (Some (name p)))
           (returnTrueIf (matchesSearch rt searchTerm (Some (nameEn p)))
           (returnTrueIf (matchesSearch rt searchTerm (Some (description p)))
           (returnTrueIf (definedAndMatches rt searchTerm (descriptionEn p))
           (returnTrueIf (matchesSearchArray rt searchTerm (Some (colors p)))
           (returnTrueIf (matchesSearchArray rt searchTerm (Some (materials p)))
           (returnTrueIf (matchesSearchArray rt searchTerm (Some (features p)))
           (returnTrueIf (definedAndMatchesArray rt searchTerm (tags p))
           (returnTrueIf (definedAndMatches rt searchTerm (category p))
           (returnTrueIf (definedAndMatches rt searchTerm (subcategory p))
           (Inr False))))))))))))))"

subsection \<open>\<open>debugSearch\<close>\<close>

text \<open>
  \<open>if (matchesSearch(searchTerm, value)) matches.push(entry)\<close>, and the \<open>forEach\<close> loops
  that push \<open>label\<close> followed by the item for every matching item; \<open>matches\<close> is the
  array built so far.
\<close>

definition pushIfMatches ::
  "runtime \<Rightarrow> jsstring option \<Rightarrow> jsstring \<Rightarrow> jsstring \<Rightarrow> jsstring list
     \<Rightarrow> error + jsstring list" where
  "pushIfMatches rt searchTerm val entry matches =
     bindE (matchesSearch rt searchTerm (Some val)) (\<lambda>b.
       Inr (if b then matches @ [entry] else matches))"

fun forEachPush ::
  "runtime \<Rightarrow> jsstring option \<Rightarrow> jsstring \<Rightarrow> jsstring list \<Rightarrow> jsstring list
     \<Rightarrow> error + jsstring list" where
  "forEachPush rt searchTerm label [] matches = Inr matches"
| "forEachPush rt searchTerm label (item # items) matches =
     bindE (pushIfMatches rt searchTerm item (label @ item) matches)
       (forEachPush rt searchTerm label items)"

definition debugSearch ::
  "runtime \<Rightarrow> SearchableProduct option \<Rightarrow> jsstring option \<Rightarrow> error + jsstring list" where
  "debugSearch rt product searchTerm =
     bindE (receiver product) (\<lambda>p.
     bindE (pushIfMatches rt searchTerm (name p) (ascii ''Name: '' @ name p) []) (\<lambda>m1.
     bindE (pushIfMatches rt searchTerm (nameEn p) (ascii ''Name EN: '' @ nameEn p) m1) (\<lambda>m2.
     bindE (pushIfMatches rt searchTerm (description p) (ascii ''Description'') m2) (\<lambda>m3.
     bindE (forEachPush rt searchTerm (ascii ''Color: '') (colors p) m3) (\<lambda>m4.
     bindE (forEachPush rt searchTerm (ascii ''Material: '') (materials p) m4) (\<lambda>m5.
     forEachPush rt searchTerm (ascii ''Feature: '') (features p) m5))))))"

section \<open>Notions of the specification\<close>

text \<open>
  The tokens as the specification describes them: the maximal runs of characters that
  are no separators, in their order in the text.
\<close>

function wordsBetween :: "(jschar \<Rightarrow> bool) \<Rightarrow> jsstring \<Rightarrow> jsstring list" where
  "wordsBetween sep [] = []"
| "wordsBetween sep (c # cs) =
     (if sep c then wordsBetween sep cs
      else takeWhile (\<lambda>x. \<not> sep x) (c # cs) # wordsBetween sep (dropWhile (\<lambda>x. \<not> sep x) cs))"
  by pat_completeness auto
termination
  by (relation "measure (\<lambda>(sep, s). length s)")
     (auto simp: length_dropWhile_le less_Suc_eq_le)

text \<open>
  A fact of the language that one theorem on \<open>searchProduct\<close> needs of the runtime:
  lower-casing a string of white space leaves a string of white space, and the
  decomposition of the empty string is empty.
\<close>

definition keepsBlank :: "runtime \<Rightarrow> bool" where
  "keepsBlank rt \<longleftrightarrow>
     (\<forall>s. trim s = [] \<longrightarrow> trim (toLowerCase rt s) = []) \<and> normalizeNFD rt [] = []"

section \<open>Sample products\<close>

text \<open>Two products for the concrete cases below; the second matches \<open>white\<close> by a tag only.\<close>

definition sampleProduct :: SearchableProduct where
  "sampleProduct =
     \<lparr> name = ascii ''Mirror'', nameEn = ascii ''Mirror'', description = ascii ''Mirror'',
       descriptionEn = None, colors = [ascii ''white'', ascii ''black''], materials = [],
       features = [], tags = None, category = None, subcategory = None \<rparr>"

definition taggedProduct :: SearchableProduct where
  "taggedProduct =
     \<lparr> name = ascii ''Mirror'', nameEn = ascii ''Mirror'', description = ascii ''Mirror'',
       descriptionEn = None, colors = [ascii ''black''], materials = [ascii ''glass''],
       features = [], tags = Some [ascii ''white''], category = None, subcategory = None \<rparr>"

section \<open>Proofs\<close>

subsection \<open>Errors and guards\<close>

lemma bindE_Inr: "bindE (Inr x) f = f x"
  by (simp add: bindE_def)

lemma receiver_Some: "receiver (Some x) = Inr x"
  by (simp add: receiver_def)

lemma falsy_Some: "falsy (Some s) \<longleftrightarrow> s = []"
  by (simp add: falsy_def)

lemma normalizeSearchText_falsy: "falsy text \<Longrightarrow> normalizeSearchText rt text = Inr []"
  by (simp add: normalizeSearchText_def)

lemma normalizeSearchText_truthy:
  "s \<noteq> [] \<Longrightarrow> normalizeSearchText rt (Some s) = Inr (normalizeChain rt s)"
  by (simp add: normalizeSearchText_def falsy_Some receiver_Some bindE_Inr)

lemma normalizeSearchText_returns: "\<exists>n. normalizeSearchText rt t = Inr n"
proof (cases "falsy t")
  case True
  then show ?thesis by (simp add: normalizeSearchText_falsy)
next
  case False
  then obtain s where "t = Some s" "s \<noteq> []"
    by (cases t) (auto simp: falsy_def)
  then show ?thesis by (simp add: normalizeSearchText_truthy)
qed

lemma tokenize_eq:
  "normalizeSearchText rt text = Inr n \<Longrightarrow>
   tokenize rt text = Inr (filter (\<lambda>token. 2 \<le> length token) (split isSeparator n))"
  by (simp add: tokenize_def bindE_Inr)

subsection \<open>Prefixes, substrings and the two loops of \<open>matchesSearch\<close>\<close>

lemma startsWith_iff: "startsWith t s \<longleftrightarrow> (\<exists>post. t = s @ post)"
proof
  assume "startsWith t s"
  then have "t = s @ drop (length s) t"
    unfolding startsWith_def by (metis append_take_drop_id)
  then show "\<exists>post. t = s @ post" ..
next
  assume "\<exists>post. t = s @ post"
  then show "startsWith t s" by (auto simp: startsWith_def)
qed

lemma includes_str_iff: "includes_str t s \<longleftrightarrow> (\<exists>pre post. t = pre @ s @ post)"
proof (induction t)
  case Nil
  then show ?case by auto
next
  case (Cons c cs)
  show ?case
  proof
    assume "includes_str (c # cs) s"
    then consider "startsWith (c # cs) s" | "includes_str cs s" by auto
    then show "\<exists>pre post. c # cs = pre @ s @ post"
    proof cases
      case 1
      then obtain post where "c # cs = s @ post" by (auto simp: startsWith_iff)
      then have "c # cs = [] @ s @ post" by simp
      then show ?thesis by blast
    next
      case 2
      then obtain pre post where "cs = pre @ s @ post" using Cons.IH by auto
      then have "c # cs = (c # pre) @ s @ post" by simp
      then show ?thesis by blast
    qed
  next
    assume "\<exists>pre post. c # cs = pre @ s @ post"
    then obtain pre post where eq: "c # cs = pre @ s @ post" by auto
    show "includes_str (c # cs) s"
    proof (cases pre)
      case Nil
      with eq have "startsWith (c # cs) s" by (auto simp: startsWith_iff)
      then show ?thesis by simp
    next
      case (Cons d ds)
      with eq have "cs = ds @ s @ post" by simp
      then have "includes_str cs s" using Cons.IH by blast
      then show ?thesis by simp
    qed
  qed
qed

lemma tokenMatched_iff:
  "tokenMatched st tts \<longleftrightarrow>
     (\<exists>tt\<in>set tts. tt = st \<or> (startsWith tt st \<and> 3 \<le> length st) \<or>
        (includes_str tt st \<and> 4 \<le> length st))"
  by (induction tts) auto

lemma allTokensMatch_iff:
  "allTokensMatch sts tts \<longleftrightarrow> (\<forall>st\<in>set sts. tokenMatched st tts)"
  by (induction sts) auto

lemma matchesSearch_falsy:
  "falsy searchTerm \<or> falsy targetText \<Longrightarrow> matchesSearch rt searchTerm targetText = Inr False"
  by (simp add: matchesSearch_def)

lemma matchesSearch_eq:
  assumes "\<not> falsy searchTerm" "\<not> falsy targetText"
    and "normalizeSearchText rt searchTerm = Inr ns"
    and "normalizeSearchText rt targetText = Inr nt"
    and "tokenize rt searchTerm = Inr sts"
    and "tokenize rt targetText = Inr tts"
  shows "matchesSearch rt searchTerm targetText =
    Inr (2 \<le> length ns \<and>
         (includes_str nt ns \<or> (sts \<noteq> [] \<and> tts \<noteq> [] \<and> allTokensMatch sts tts)))"
  using assms by (auto simp add: matchesSearch_def bindE_Inr)

lemma matchesSearch_returns: "\<exists>b. matchesSearch rt searchTerm targetText = Inr b"
proof (cases "falsy searchTerm \<or> falsy targetText")
  case True
  then show ?thesis by (auto simp add: matchesSearch_falsy)
next
  case False
  obtain ns nt where n: "normalizeSearchText rt searchTerm = Inr ns"
      "normalizeSearchText rt targetText = Inr nt"
    using normalizeSearchText_returns by blast
  show ?thesis
    using False matchesSearch_eq [OF _ _ n tokenize_eq [OF n(1)] tokenize_eq [OF n(2)]]
    by blast
qed

subsection \<open>Evaluation on concrete strings\<close>

lemma toLowerCase_basic: "toLowerCase basicRuntime s = map lowerUnit s"
  by (simp add: basicRuntime_def)

lemma normalizeNFD_basic: "normalizeNFD basicRuntime s = concat (map decomposeUnit s)"
  by (simp add: basicRuntime_def)

lemma foldGreek_chain:
  "foldGreek s =
     replaceChar 0x3C2 0x3C3 (replaceChar 0x3B0 0x3C5 (replaceChar 0x390 0x3B9
    (replaceChar 0x3CE 0x3C9 (replaceChar 0x3CD 0x3C5 (replaceChar 0x3CC 0x3BF
    (replaceChar 0x3AF 0x3B9 (replaceChar 0x3AE 0x3B7 (replaceChar 0x3AD 0x3B5
    (replaceChar 0x3AC 0x3B1 s)))))))))"
  by (simp only: foldGreek_def Let_def)

lemma normalizeChain_chain:
  "normalizeChain rt t =
     replaceRuns isWhiteSpace 0x20 (replaceClass isSlash 0x20 (foldGreek
       (removeClass isCombiningMark (normalizeNFD rt (trim (toLowerCase rt t))))))"
  by (simp only: normalizeChain_def Let_def)

lemma normalizeSearchText_Cons:
  "normalizeSearchText rt (Some (c # cs)) = Inr (normalizeChain rt (c # cs))"
  by (simp add: normalizeSearchText_truthy)

lemmas normalize_eval = normalizeSearchText_Cons normalizeChain_chain foldGreek_chain
  toLowerCase_basic normalizeNFD_basic lowerUnit_def trim_def isWhiteSpace_def decomposeUnit_def
  removeClass_def isCombiningMark_def replaceChar_def replaceClass_def isSlash_def

lemmas split_eval = split_def isSeparator_def isWhiteSpace_def

lemma normalize_White_LED:
  "normalizeSearchText basicRuntime (Some (ascii ''White LED'')) = Inr (ascii ''white led'')"
  by (simp add: ascii_def normalize_eval)

lemma normalize_LED_White_Panel:
  "normalizeSearchText basicRuntime (Some (ascii ''LED White Panel'')) =
     Inr (ascii ''led white panel'')"
  by (simp add: ascii_def normalize_eval)

lemma split_white_led:
  "split isSeparator (ascii ''white led'') = [ascii ''white'', ascii ''led'']"
  by (simp add: ascii_def split_eval)

lemma split_led_white_panel:
  "split isSeparator (ascii ''led white panel'') = [ascii ''led'', ascii ''white'', ascii ''panel'']"
  by (simp add: ascii_def split_eval)

lemma tokenize_White_LED:
  "tokenize basicRuntime (Some (ascii ''White LED'')) = Inr [ascii ''white'', ascii ''led'']"
  by (simp add: tokenize_eq [OF normalize_White_LED] split_white_led) (simp add: ascii_def)

lemma tokenize_LED_White_Panel:
  "tokenize basicRuntime (Some (ascii ''LED White Panel'')) =
     Inr [ascii ''led'', ascii ''white'', ascii ''panel'']"
  by (simp add: tokenize_eq [OF normalize_LED_White_Panel] split_led_white_panel)
     (simp add: ascii_def)

subsection \<open>Claims on \<open>matchesSearch\<close>\<close>

text \<open>
  Claim C3. For a non-empty search term and a non-empty target text, the normalized
  search term having at least two characters, \<open>matchesSearch\<close> returns \<open>true\<close> if and only
  if the normalized target contains the normalized search term as a substring, or both
  token lists are non-empty and every search token matches a target token: the two
  are equal, or the target token starts with the search token and the search token has
  at least three characters, or the target token contains the search token and the
  search token has at least four characters. Otherwise it returns \<open>false\<close>.
\<close>

theorem matchesSearch_substring_or_tokens:
  assumes "searchTerm \<noteq> []" and "targetText \<noteq> []"
    and "normalizeSearchText rt (Some searchTerm) = Inr ns"
    and "normalizeSearchText rt (Some targetText) = Inr nt"
    and "2 \<le> length ns"
    and "tokenize rt (Some searchTerm) = Inr sts"
    and "tokenize rt (Some targetText) = Inr tts"
  shows "matchesSearch rt (Some searchTerm) (Some targetText) =
    Inr ((\<exists>pre post. nt = pre @ ns @ post) \<or>
         (sts \<noteq> [] \<and> tts \<noteq> [] \<and>
          (\<forall>st\<in>set sts. \<exists>tt\<in>set tts.
             tt = st \<or>
             ((\<exists>post. tt = st @ post) \<and> 3 \<le> length st) \<or>
             ((\<exists>pre post. tt = pre @ st @ post) \<and> 4 \<le> length st))))"
proof -
  have "matchesSearch rt (Some searchTerm) (Some targetText) =
      Inr (2 \<le> length ns \<and>
        (includes_str nt ns \<or> (sts \<noteq> [] \<and> tts \<noteq> [] \<and> allTokensMatch sts tts)))"
    using assms by (intro matchesSearch_eq) (simp_all add: falsy_Some)
  then show ?thesis
    using assms(5)
    by (simp add: allTokensMatch_iff tokenMatched_iff startsWith_iff includes_str_iff)
qed

theorem matchesSearch_substring_or_tokens_witness:
  "matchesSearch basicRuntime (Some (ascii ''White LED'')) (Some (ascii ''LED White Panel''))
     = Inr True \<and>
   normalizeSearchText basicRuntime (Some (ascii ''White LED'')) = Inr (ascii ''white led'') \<and>
   tokenize basicRuntime (Some (ascii ''White LED'')) = Inr [ascii ''white'', ascii ''led''] \<and>
   tokenize basicRuntime (Some (ascii ''LED White Panel''))
     = Inr [ascii ''led'', ascii ''white'', ascii ''panel'']"
proof -
  have "matchesSearch basicRuntime (Some (ascii ''White LED'')) (Some (ascii ''LED White Panel''))
     = Inr True"
    using matchesSearch_substring_or_tokens [OF _ _ normalize_White_LED normalize_LED_White_Panel
        _ tokenize_White_LED tokenize_LED_White_Panel]
    by (simp add: ascii_def)
  then show ?thesis
    using normalize_White_LED tokenize_White_LED tokenize_LED_White_Panel by simp
qed

subsection \<open>Short search terms and reflexivity\<close>

lemma matchesSearch_short:
  assumes "normalizeSearchText rt searchTerm = Inr n" and "length n < 2"
  shows "matchesSearch rt searchTerm targetText = Inr False"
proof (cases "falsy searchTerm \<or> falsy targetText")
  case True
  then show ?thesis by (rule matchesSearch_falsy)
next
  case False
  obtain nt where nt: "normalizeSearchText rt targetText = Inr nt"
    using normalizeSearchText_returns by blast
  show ?thesis
    using False assms(2)
      matchesSearch_eq [OF _ _ assms(1) nt tokenize_eq [OF assms(1)] tokenize_eq [OF nt]]
    by simp
qed

lemma matchesSearch_self:
  assumes "normalizeSearchText rt s = Inr n" and "2 \<le> length n"
  shows "matchesSearch rt s s = Inr True"
proof -
  have "\<not> falsy s"
    using assms normalizeSearchText_falsy [of s rt] by auto
  moreover have "includes_str n n"
    unfolding includes_str_iff by (metis append_Nil append_Nil2)
  ultimately show ?thesis
    using assms(2) matchesSearch_eq [OF _ _ assms(1) assms(1) tokenize_eq [OF assms(1)]
        tokenize_eq [OF assms(1)]]
    by simp
qed

lemma normalize_a: "normalizeSearchText basicRuntime (Some (ascii ''a'')) = Inr (ascii ''a'')"
  by (simp add: ascii_def normalize_eval)

lemma normalize_led: "normalizeSearchText basicRuntime (Some (ascii ''led'')) = Inr (ascii ''led'')"
  by (simp add: ascii_def normalize_eval)

text \<open>
  Claim C4. \<open>matchesSearch\<close> fails closed: it returns \<open>false\<close> whenever the search term
  is empty or undefined, or the target text is empty or undefined, or the normalized
  search term has fewer than two characters.
\<close>

theorem matchesSearch_fails_closed:
  assumes "falsy searchTerm \<or> falsy targetText \<or>
    (\<exists>n. normalizeSearchText rt searchTerm = Inr n \<and> length n < 2)"
  shows "matchesSearch rt searchTerm targetText = Inr False"
  using assms matchesSearch_falsy matchesSearch_short by blast

theorem matchesSearch_fails_closed_witness:
  "matchesSearch basicRuntime (Some []) (Some (ascii ''anything'')) = Inr False \<and>
   matchesSearch basicRuntime None (Some (ascii ''anything'')) = Inr False \<and>
   matchesSearch basicRuntime (Some (ascii ''anything'')) None = Inr False \<and>
   matchesSearch basicRuntime (Some (ascii ''a'')) (Some (ascii ''anything'')) = Inr False"
proof -
  have short: "\<exists>n. normalizeSearchText basicRuntime (Some (ascii ''a'')) = Inr n \<and> length n < 2"
    using normalize_a by (simp add: ascii_def)
  show ?thesis
    using matchesSearch_fails_closed [of "Some []" "Some (ascii ''anything'')" basicRuntime]
      matchesSearch_fails_closed [of None "Some (ascii ''anything'')" basicRuntime]
      matchesSearch_fails_closed [of "Some (ascii ''anything'')" None basicRuntime]
      matchesSearch_fails_closed [of "Some (ascii ''a'')" "Some (ascii ''anything'')" basicRuntime]
      short
    by (simp add: falsy_def)
qed

text \<open>
  Claim C10. \<open>matchesSearch\<close> is reflexive on valid terms: when the normalized form of
  \<open>s\<close> has at least two characters, \<open>matchesSearch(s, s)\<close> is \<open>true\<close>.
\<close>

theorem matchesSearch_reflexive:
  assumes "normalizeSearchText rt s = Inr n" and "2 \<le> length n"
  shows "matchesSearch rt s s = Inr True"
  using assms by (rule matchesSearch_self)

theorem matchesSearch_reflexive_witness:
  "normalizeSearchText basicRuntime (Some (ascii ''led'')) = Inr (ascii ''led'') \<and>
   2 \<le> length (ascii ''led'') \<and>
   matchesSearch basicRuntime (Some (ascii ''led'')) (Some (ascii ''led'')) = Inr True"
proof -
  have len: "2 \<le> length (ascii ''led'')" by (simp add: ascii_def)
  show ?thesis
    using normalize_led len matchesSearch_reflexive [OF normalize_led len] by simp
qed

subsection \<open>\<open>matchesSearchArray\<close> and \<open>searchProduct\<close>\<close>

lemma returns_Inr_iff: "\<exists>b. m = Inr b \<Longrightarrow> m = Inr (m = Inr True)"
  by auto

lemma some_eq:
  assumes "\<And>x. \<exists>b. f x = Inr b"
  shows "some f xs = Inr (\<exists>x\<in>set xs. f x = Inr True)"
proof (induction xs)
  case Nil
  show ?case by simp
next
  case (Cons x xs)
  obtain b where "f x = Inr b" using assms by blast
  then show ?case using Cons.IH by (simp add: bindE_Inr)
qed

lemma matchesSearchArray_eq:
  "matchesSearchArray rt searchTerm items =
     Inr (\<exists>xs. items = Some xs \<and> (\<exists>x\<in>set xs. matchesSearch rt searchTerm (Some x) = Inr True))"
proof (cases "falsy searchTerm")
  case True
  then show ?thesis
    by (auto simp: matchesSearchArray_def matchesSearch_falsy)
next
  case False
  show ?thesis
  proof (cases items)
    case None
    then show ?thesis by (simp add: matchesSearchArray_def)
  next
    case (Some xs)
    have "some (\<lambda>item. matchesSearch rt searchTerm (Some item)) xs =
        Inr (\<exists>x\<in>set xs. matchesSearch rt searchTerm (Some x) = Inr True)"
      by (rule some_eq) (rule matchesSearch_returns)
    then show ?thesis
      using Some False by (auto simp: matchesSearchArray_def receiver_Some bindE_Inr)
  qed
qed

lemma definedAndMatches_eq:
  "definedAndMatches rt searchTerm field =
     Inr (\<exists>d. field = Some d \<and> matchesSearch rt searchTerm (Some d) = Inr True)"
proof (cases "falsy field")
  case True
  then show ?thesis
    by (auto simp: definedAndMatches_def matchesSearch_falsy)
next
  case False
  then obtain d where d: "field = Some d" by (cases field) (auto simp: falsy_def)
  obtain b where "matchesSearch rt searchTerm (Some d) = Inr b"
    using matchesSearch_returns by blast
  then show ?thesis using False d by (simp add: definedAndMatches_def)
qed

lemma definedAndMatchesArray_eq:
  "definedAndMatchesArray rt searchTerm field =
     Inr (\<exists>xs. field = Some xs \<and> matchesSearchArray rt searchTerm (Some xs) = Inr True)"
proof (cases field)
  case None
  then show ?thesis by (simp add: definedAndMatchesArray_def)
next
  case (Some xs)
  then show ?thesis
    by (simp add: definedAndMatchesArray_def matchesSearchArray_eq)
qed

lemma returnTrueIf_Inr: "returnTrueIf (Inr b) rest = (if b then Inr True else rest)"
  by (simp add: returnTrueIf_def bindE_Inr)

lemma searchProduct_empty:
  "falsy searchTerm \<Longrightarrow> searchProduct rt product searchTerm = Inr True"
  by (simp add: searchProduct_def)

lemma searchProduct_blank:
  "trim s = [] \<Longrightarrow> searchProduct rt product (Some s) = Inr True"
  by (simp add: searchProduct_def receiver_Some bindE_Inr)

lemma trim_Nil: "trim [] = []"
  by (simp add: trim_def)

lemma searchProduct_no_product:
  "trim s \<noteq> [] \<Longrightarrow> searchProduct rt None (Some s) = Inr False"
  by (auto simp: searchProduct_def receiver_Some bindE_Inr falsy_Some trim_Nil)

lemma searchProduct_short:
  assumes "trim s \<noteq> []" and "normalizeSearchText rt (Some s) = Inr n" and "length n < 2"
  shows "searchProduct rt product (Some s) = Inr False"
proof -
  have "s \<noteq> []" using assms(1) by (auto simp: trim_Nil)
  then show ?thesis
    using assms by (simp add: searchProduct_def receiver_Some bindE_Inr falsy_Some)
qed

lemma searchProduct_fields:
  assumes "trim s \<noteq> []" and "normalizeSearchText rt (Some s) = Inr n" and "2 \<le> length n"
  shows "searchProduct rt (Some p) (Some s) =
    Inr (matchesSearch rt (Some s) (Some (name p)) = Inr True \<or>
         matchesSearch rt (Some s) (Some (nameEn p)) = Inr True \<or>
         matchesSearch rt (Some s) (Some (description p)) = Inr True \<or>
         (\<exists>d. descriptionEn p = Some d \<and> matchesSearch rt (Some s) (Some d) = Inr True) \<or>
         matchesSearchArray rt (Some s) (Some (colors p)) = Inr True \<or>
         matchesSearchArray rt (Some s) (Some (materials p)) = Inr True \<or>
         matchesSearchArray rt (Some s) (Some (features p)) = Inr True \<or>
         (\<exists>ts. tags p = Some ts \<and> matchesSearchArray rt (Some s) (Some ts) = Inr True) \<or>
         (\<exists>c. category p = Some c \<and> matchesSearch rt (Some s) (Some c) = Inr True) \<or>
         (\<exists>c. subcategory p = Some c \<and> matchesSearch rt (Some s) (Some c) = Inr True))"
proof -
  have ne: "s \<noteq> []" using assms(1) by (auto simp: trim_Nil)
  have m1: "matchesSearch rt (Some s) (Some (name p)) =
      Inr (matchesSearch rt (Some s) (Some (name p)) = Inr True)"
    by (rule returns_Inr_iff) (rule matchesSearch_returns)
  have m2: "matchesSearch rt (Some s) (Some (nameEn p)) =
      Inr (matchesSearch rt (Some s) (Some (nameEn p)) = Inr True)"
    by (rule returns_Inr_iff) (rule matchesSearch_returns)
  have m3: "matchesSearch rt (Some s) (Some (description p)) =
      Inr (matchesSearch rt (Some s) (Some (description p)) = Inr True)"
    by (rule returns_Inr_iff) (rule matchesSearch_returns)
  have a1: "matchesSearchArray rt (Some s) (Some (colors p)) =
      Inr (matchesSearchArray rt (Some s) (Some (colors p)) = Inr True)"
    by (rule returns_Inr_iff) (simp add: matchesSearchArray_eq)
  have a2: "matchesSearchArray rt (Some s) (Some (materials p)) =
      Inr (matchesSearchArray rt (Some s) (Some (materials p)) = Inr True)"
    by (rule returns_Inr_iff) (simp add: matchesSearchArray_eq)
  have a3: "matchesSearchArray rt (Some s) (Some (features p)) =
      Inr (matchesSearchArray rt (Some s) (Some (features p)) = Inr True)"
    by (rule returns_Inr_iff) (simp add: matchesSearchArray_eq)
  have "searchProduct rt (Some p) (Some s) =
      returnTrueIf (matchesSearch rt (Some s) (Some (name p)))
     (returnTrueIf (matchesSearch rt (Some s) (Some (nameEn p)))
     (returnTrueIf (matchesSearch rt (Some s) (Some (description p)))
     (returnTrueIf (definedAndMatches rt (Some s) (descriptionEn p))
     (returnTrueIf (matchesSearchArray rt (Some s) (Some (colors p)))
     (returnTrueIf (matchesSearchArray rt (Some s) (Some (materials p)))
     (returnTrueIf (matchesSearchArray rt (Some s) (Some (features p)))
     (returnTrueIf (definedAndMatchesArray rt (Some s) (tags p))
     (returnTrueIf (definedAndMatches rt (Some s) (category p))
     (returnTrueIf (definedAndMatches rt (Some s) (subcategory p))
     (Inr False))))))))))"
    using assms ne by (simp add: searchProduct_def receiver_Some bindE_Inr falsy_Some)
  also have "\<dots> = Inr (matchesSearch rt (Some s) (Some (name p)) = Inr True \<or>
         matchesSearch rt (Some s) (Some (nameEn p)) = Inr True \<or>
         matchesSearch rt (Some s) (Some (description p)) = Inr True \<or>
         (\<exists>d. descriptionEn p = Some d \<and> matchesSearch rt (Some s) (Some d) = Inr True) \<or>
         matchesSearchArray rt (Some s) (Some (colors p)) = Inr True \<or>
         matchesSearchArray rt (Some s) (Some (materials p)) = Inr True \<or>
         matchesSearchArray rt (Some s) (Some (features p)) = Inr True \<or>
         (\<exists>ts. tags p = Some ts \<and> matchesSearchArray rt (Some s) (Some ts) = Inr True) \<or>
         (\<exists>c. category p = Some c \<and> matchesSearch rt (Some s) (Some c) = Inr True) \<or>
         (\<exists>c. subcategory p = Some c \<and> matchesSearch rt (Some s) (Some c) = Inr True))"
    apply (subst m1, subst m2, subst m3, subst a1, subst a2, subst a3)
    apply (simp only: definedAndMatches_eq definedAndMatchesArray_eq returnTrueIf_Inr)
    apply (simp only: if_True if_False split: if_split)
    apply blast
    done
  finally show ?thesis .
qed

subsection \<open>White space\<close>

lemma trim_eq_Nil_iff: "trim s = [] \<longleftrightarrow> (\<forall>c\<in>set s. isWhiteSpace c)"
proof
  assume "trim s = []"
  then have all: "\<forall>c\<in>set (dropWhile isWhiteSpace s). isWhiteSpace c"
    by (simp add: trim_def)
  have "dropWhile isWhiteSpace s = []"
  proof (cases "dropWhile isWhiteSpace s")
    case Nil
    then show ?thesis .
  next
    case (Cons c cs)
    then have "\<not> isWhiteSpace c" by (simp add: dropWhile_eq_Cons_conv)
    moreover have "isWhiteSpace c" using all Cons by simp
    ultimately show ?thesis by simp
  qed
  then show "\<forall>c\<in>set s. isWhiteSpace c" by simp
next
  assume "\<forall>c\<in>set s. isWhiteSpace c"
  then show "trim s = []" by (auto simp: trim_def dest: set_dropWhileD)
qed

lemma lowerUnit_isWhiteSpace: "isWhiteSpace c \<Longrightarrow> lowerUnit c = c"
  by (auto simp: isWhiteSpace_def lowerUnit_def)

lemma keepsBlank_basic: "keepsBlank basicRuntime"
  by (auto simp: keepsBlank_def trim_eq_Nil_iff toLowerCase_basic normalizeNFD_basic
      lowerUnit_isWhiteSpace)

lemma normalizeChain_blank:
  assumes "keepsBlank rt" and "trim s = []"
  shows "normalizeChain rt s = []"
proof -
  have "trim (toLowerCase rt s) = []" and "normalizeNFD rt [] = []"
    using assms by (auto simp: keepsBlank_def)
  then show ?thesis
    by (simp add: normalizeChain_chain foldGreek_chain removeClass_def replaceChar_def
        replaceClass_def)
qed

lemma normalized_long_not_blank:
  assumes "keepsBlank rt" and "normalizeSearchText rt searchTerm = Inr n" and "2 \<le> length n"
  obtains s where "searchTerm = Some s" and "trim s \<noteq> []"
proof -
  have "\<not> falsy searchTerm"
    using assms normalizeSearchText_falsy [of searchTerm rt] by auto
  then obtain s where s: "searchTerm = Some s" "s \<noteq> []"
    by (cases searchTerm) (auto simp: falsy_def)
  have "trim s \<noteq> []"
  proof
    assume "trim s = []"
    then have "normalizeChain rt s = []" by (rule normalizeChain_blank [OF assms(1)])
    then show False using assms(2,3) s by (simp add: normalizeSearchText_truthy)
  qed
  then show ?thesis using s that by blast
qed

lemma normalize_white:
  "normalizeSearchText basicRuntime (Some (ascii ''white'')) = Inr (ascii ''white'')"
  by (simp add: ascii_def normalize_eval)

lemma normalize_x: "normalizeSearchText basicRuntime (Some (ascii ''x'')) = Inr (ascii ''x'')"
  by (simp add: ascii_def normalize_eval)

lemma trim_chair: "trim (ascii ''chair'') \<noteq> []"
  by (simp add: ascii_def trim_def isWhiteSpace_def)

lemma trim_x: "trim (ascii ''x'') \<noteq> []"
  by (simp add: ascii_def trim_def isWhiteSpace_def)

lemma trim_spaces: "trim (ascii ''  '') = []"
  by (simp add: ascii_def trim_def isWhiteSpace_def)

text \<open>
  Claim C5. The boundary cases of \<open>searchProduct\<close>, in the order of the checks: for every
  product, an undefined one too, an empty, undefined or white-space-only search term
  gives \<open>true\<close>; otherwise an undefined product gives \<open>false\<close>; otherwise a search term
  whose normalized form has fewer than two characters gives \<open>false\<close>.
\<close>

theorem searchProduct_boundaries:
  "(falsy searchTerm \<longrightarrow> searchProduct rt product searchTerm = Inr True) \<and>
   (trim s = [] \<longrightarrow> searchProduct rt product (Some s) = Inr True) \<and>
   (trim s \<noteq> [] \<longrightarrow> searchProduct rt None (Some s) = Inr False) \<and>
   (trim s \<noteq> [] \<and> normalizeSearchText rt (Some s) = Inr n \<and> length n < 2 \<longrightarrow>
      searchProduct rt product (Some s) = Inr False)"
  using searchProduct_empty searchProduct_blank searchProduct_no_product searchProduct_short
  by blast

theorem searchProduct_boundaries_witness:
  "searchProduct basicRuntime (Some sampleProduct) None = Inr True \<and>
   searchProduct basicRuntime None (Some []) = Inr True \<and>
   searchProduct basicRuntime None (Some (ascii ''  '')) = Inr True \<and>
   searchProduct basicRuntime None (Some (ascii ''chair'')) = Inr False \<and>
   searchProduct basicRuntime (Some sampleProduct) (Some (ascii ''x'')) = Inr False"
proof -
  have short: "length (ascii ''x'') < 2" by (simp add: ascii_def)
  show ?thesis
    using searchProduct_boundaries [of None basicRuntime "Some sampleProduct"]
      searchProduct_boundaries [of "Some []" basicRuntime None "ascii ''  ''"]
      searchProduct_boundaries [of None basicRuntime None "ascii ''chair''"]
      searchProduct_boundaries [of None basicRuntime "Some sampleProduct" "ascii ''x''"
        "ascii ''x''"]
      trim_spaces trim_chair trim_x normalize_x short
    by (simp add: falsy_def)
qed

lemma matchesSearchArray_white:
  "matchesSearchArray basicRuntime (Some (ascii ''white'')) (Some (ascii ''white'' # xs)) = Inr True"
proof -
  have "matchesSearch basicRuntime (Some (ascii ''white'')) (Some (ascii ''white'')) = Inr True"
    by (rule matchesSearch_self [OF normalize_white]) (simp add: ascii_def)
  then show ?thesis by (simp add: matchesSearchArray_eq)
qed

text \<open>
  Claim C6. For a defined product and a search term whose normalized form has at least
  two characters, \<open>searchProduct\<close> returns \<open>true\<close> if and only if \<open>matchesSearch\<close>
  (\<open>matchesSearchArray\<close> for the arrays) succeeds on one of: the name, the English name,
  the description, the English description if there is one, the colors, the materials,
  the features, the tags if there are any, the category and the subcategory if there
  are; otherwise it returns \<open>false\<close>. In particular a product with the colors
  \<open>["white", "black"]\<close> is found by the search term \<open>white\<close>.
\<close>

theorem searchProduct_any_field:
  "(keepsBlank rt \<and> normalizeSearchText rt searchTerm = Inr n \<and> 2 \<le> length n \<longrightarrow>
    searchProduct rt (Some p) searchTerm =
      Inr (matchesSearch rt searchTerm (Some (name p)) = Inr True \<or>
           matchesSearch rt searchTerm (Some (nameEn p)) = Inr True \<or>
           matchesSearch rt searchTerm (Some (description p)) = Inr True \<or>
           (\<exists>d. descriptionEn p = Some d \<and> matchesSearch rt searchTerm (Some d) = Inr True) \<or>
           matchesSearchArray rt searchTerm (Some (colors p)) = Inr True \<or>
           matchesSearchArray rt searchTerm (Some (materials p)) = Inr True \<or>
           matchesSearchArray rt searchTerm (Some (features p)) = Inr True \<or>
           (\<exists>ts. tags p = Some ts \<and> matchesSearchArray rt searchTerm (Some ts) = Inr True) \<or>
           (\<exists>c. category p = Some c \<and> matchesSearch rt searchTerm (Some c) = Inr True) \<or>
           (\<exists>c. subcategory p = Some c \<and> matchesSearch rt searchTerm (Some c) = Inr True))) \<and>
   (colors q = [ascii ''white'', ascii ''black''] \<longrightarrow>
    searchProduct basicRuntime (Some q) (Some (ascii ''white'')) = Inr True)"
proof (intro conjI impI)
  assume "keepsBlank rt \<and> normalizeSearchText rt searchTerm = Inr n \<and> 2 \<le> length n"
  then have kb: "keepsBlank rt" and n: "normalizeSearchText rt searchTerm = Inr n"
    and len: "2 \<le> length n"
    by auto
  from kb n len obtain s where s: "searchTerm = Some s" "trim s \<noteq> []"
    by (rule normalized_long_not_blank)
  show "searchProduct rt (Some p) searchTerm =
      Inr (matchesSearch rt searchTerm (Some (name p)) = Inr True \<or>
           matchesSearch rt searchTerm (Some (nameEn p)) = Inr True \<or>
           matchesSearch rt searchTerm (Some (description p)) = Inr True \<or>
           (\<exists>d. descriptionEn p = Some d \<and> matchesSearch rt searchTerm (Some d) = Inr True) \<or>
           matchesSearchArray rt searchTerm (Some (colors p)) = Inr True \<or>
           matchesSearchArray rt searchTerm (Some (materials p)) = Inr True \<or>
           matchesSearchArray rt searchTerm (Some (features p)) = Inr True \<or>
           (\<exists>ts. tags p = Some ts \<and> matchesSearchArray rt searchTerm (Some ts) = Inr True) \<or>
           (\<exists>c. category p = Some c \<and> matchesSearch rt searchTerm (Some c) = Inr True) \<or>
           (\<exists>c. subcategory p = Some c \<and> matchesSearch rt searchTerm (Some c) = Inr True))"
    using searchProduct_fields [OF s(2) _ len, of rt p] n unfolding s(1) by simp
next
  assume q: "colors q = [ascii ''white'', ascii ''black'']"
  have len: "2 \<le> length (ascii ''white'')" by (simp add: ascii_def)
  have "trim (ascii ''white'') \<noteq> []"
    by (simp add: ascii_def trim_def isWhiteSpace_def)
  then show "searchProduct basicRuntime (Some q) (Some (ascii ''white'')) = Inr True"
    using searchProduct_fields [OF _ normalize_white len, of q] matchesSearchArray_white q
    by simp
qed

theorem searchProduct_any_field_witness:
  "keepsBlank basicRuntime \<and>
   normalizeSearchText basicRuntime (Some (ascii ''white'')) = Inr (ascii ''white'') \<and>
   2 \<le> length (ascii ''white'') \<and>
   matchesSearchArray basicRuntime (Some (ascii ''white'')) (Some (colors sampleProduct))
     = Inr True \<and>
   searchProduct basicRuntime (Some sampleProduct) (Some (ascii ''white'')) = Inr True"
proof -
  have len: "2 \<le> length (ascii ''white'')" by (simp add: ascii_def)
  have col: "colors sampleProduct = [ascii ''white'', ascii ''black'']"
    by (simp add: sampleProduct_def)
  have arr: "matchesSearchArray basicRuntime (Some (ascii ''white'')) (Some (colors sampleProduct))
     = Inr True"
    unfolding col by (rule matchesSearchArray_white)
  have "searchProduct basicRuntime (Some sampleProduct) (Some (ascii ''white'')) = Inr True"
    using searchProduct_any_field [of basicRuntime "Some (ascii ''white'')" "ascii ''white''"
        sampleProduct sampleProduct] keepsBlank_basic normalize_white len arr
    by simp
  then show ?thesis using keepsBlank_basic normalize_white len arr by simp
qed

subsection \<open>Totality\<close>

lemma tokenize_returns: "\<exists>ts. tokenize rt t = Inr ts"
  using normalizeSearchText_returns [of rt t] tokenize_eq by blast

lemma searchProduct_returns: "\<exists>b. searchProduct rt product searchTerm = Inr b"
proof (cases "falsy searchTerm")
  case True
  then show ?thesis by (auto simp: searchProduct_empty)
next
  case False
  then obtain s where s: "searchTerm = Some s" by (cases searchTerm) (auto simp: falsy_def)
  obtain n where n: "normalizeSearchText rt (Some s) = Inr n"
    using normalizeSearchText_returns by blast
  show ?thesis
  proof (cases "trim s = []")
    case True
    then show ?thesis using s by (auto simp: searchProduct_blank)
  next
    case blank: False
    show ?thesis
    proof (cases product)
      case None
      then show ?thesis using s blank by (auto simp: searchProduct_no_product)
    next
      case (Some p)
      show ?thesis
      proof (cases "length n < 2")
        case True
        then show ?thesis using s blank n by (auto simp: searchProduct_short)
      next
        case False
        then have "2 \<le> length n" by simp
        then show ?thesis using searchProduct_fields [OF blank n] s Some by simp
      qed
    qed
  qed
qed

lemma pushIfMatches_eq:
  "pushIfMatches rt searchTerm v entry matches =
     Inr (matches @ (if matchesSearch rt searchTerm (Some v) = Inr True then [entry] else []))"
proof -
  obtain b where "matchesSearch rt searchTerm (Some v) = Inr b"
    using matchesSearch_returns by blast
  then show ?thesis by (simp add: pushIfMatches_def bindE_Inr)
qed

lemma forEachPush_eq:
  "forEachPush rt searchTerm label items matches =
     Inr (matches @ map (\<lambda>item. label @ item)
       (filter (\<lambda>item. matchesSearch rt searchTerm (Some item) = Inr True) items))"
  by (induction items arbitrary: matches) (simp_all add: pushIfMatches_eq bindE_Inr)

lemma debugSearch_eq:
  "debugSearch rt (Some p) searchTerm =
     Inr ((if matchesSearch rt searchTerm (Some (name p)) = Inr True
           then [ascii ''Name: '' @ name p] else []) @
          (if matchesSearch rt searchTerm (Some (nameEn p)) = Inr True
           then [ascii ''Name EN: '' @ nameEn p] else []) @
          (if matchesSearch rt searchTerm (Some (description p)) = Inr True
           then [ascii ''Description''] else []) @
          map (\<lambda>color. ascii ''Color: '' @ color)
            (filter (\<lambda>color. matchesSearch rt searchTerm (Some color) = Inr True) (colors p)) @
          map (\<lambda>material. ascii ''Material: '' @ material)
            (filter (\<lambda>material. matchesSearch rt searchTerm (Some material) = Inr True)
              (materials p)) @
          map (\<lambda>feature. ascii ''Feature: '' @ feature)
            (filter (\<lambda>feature. matchesSearch rt searchTerm (Some feature) = Inr True)
              (features p)))"
  by (simp add: debugSearch_def receiver_Some bindE_Inr pushIfMatches_eq forEachPush_eq)

lemma debugSearch_undefined: "debugSearch rt None searchTerm = Inl TypeError"
  by (simp add: debugSearch_def receiver_def bindE_def)

text \<open>
  Claim C9. Every public function is total on its documented inputs, empty and
  undefined strings included: it returns a value and throws no error. The strings, the
  array of \<open>matchesSearchArray\<close> and the product of \<open>searchProduct\<close> may be undefined;
  the product of \<open>debugSearch\<close> is a \<open>SearchableProduct\<close>, as its signature says
  (\<open>debugSearch_undefined\<close> is what it does without one).
\<close>

theorem public_functions_return:
  "(\<exists>r. normalizeSearchText rt t = Inr r) \<and>
   (\<exists>r. tokenize rt t = Inr r) \<and>
   (\<exists>r. matchesSearch rt searchTerm t = Inr r) \<and>
   (\<exists>r. matchesSearchArray rt searchTerm items = Inr r) \<and>
   (\<exists>r. searchProduct rt product searchTerm = Inr r) \<and>
   (\<exists>r. debugSearch rt (Some p) searchTerm = Inr r)"
  using normalizeSearchText_returns tokenize_returns matchesSearch_returns
    searchProduct_returns
  by (simp add: matchesSearchArray_eq debugSearch_eq)

subsection \<open>Combining marks\<close>

lemma set_replaceChar: "set (replaceChar a b s) \<subseteq> insert b (set s)"
  by (auto simp: replaceChar_def)

lemma set_replaceClass: "set (replaceClass cls b s) \<subseteq> insert b (set s)"
  by (auto simp: replaceClass_def)

lemma set_replaceRuns: "set (replaceRuns cls b s) \<subseteq> insert b (set s)"
  by (induction cls b s rule: replaceRuns.induct) (auto dest: set_dropWhileD)

lemma replaceChar_no_mark:
  assumes "\<not> isCombiningMark b" and "\<forall>c\<in>set s. \<not> isCombiningMark c"
  shows "\<forall>c\<in>set (replaceChar a b s). \<not> isCombiningMark c"
  using assms set_replaceChar [of a b s] by auto

lemma foldGreek_no_mark:
  assumes "\<forall>c\<in>set s. \<not> isCombiningMark c"
  shows "\<forall>c\<in>set (foldGreek s). \<not> isCombiningMark c"
  unfolding foldGreek_chain
  by (intro replaceChar_no_mark assms) (simp_all add: isCombiningMark_def)

lemma normalizeChain_no_mark: "\<forall>c\<in>set (normalizeChain rt s). \<not> isCombiningMark c"
proof -
  have "\<forall>c\<in>set (removeClass isCombiningMark (normalizeNFD rt (trim (toLowerCase rt s)))).
      \<not> isCombiningMark c"
    by (simp add: removeClass_def)
  then have "\<forall>c\<in>set (foldGreek
      (removeClass isCombiningMark (normalizeNFD rt (trim (toLowerCase rt s))))).
      \<not> isCombiningMark c"
    by (rule foldGreek_no_mark)
  moreover have "\<not> isCombiningMark 0x20" by (simp add: isCombiningMark_def)
  ultimately show ?thesis
    unfolding normalizeChain_chain
    using set_replaceRuns set_replaceClass by fastforce
qed

lemma normalizeSearchText_no_mark:
  assumes "normalizeSearchText rt t = Inr n"
  shows "\<forall>c\<in>set n. \<not> isCombiningMark c"
proof (cases "falsy t")
  case True
  then show ?thesis using assms by (simp add: normalizeSearchText_falsy)
next
  case False
  then obtain s where "t = Some s" "s \<noteq> []" by (cases t) (auto simp: falsy_def)
  then show ?thesis using assms normalizeChain_no_mark by (auto simp: normalizeSearchText_truthy)
qed

text \<open>
  Claim C8. \<open>normalizeSearchText\<close> strips accents from any alphabet: no code unit of its
  result is a combining diacritical mark of the range U+0300 to U+036F. In particular
  the Greek capitals alpha with tonos, beta, gamma give the small letters alpha, beta,
  gamma without accent.
\<close>

theorem normalizeSearchText_strips_marks:
  "(normalizeSearchText rt t = Inr n \<longrightarrow> (\<forall>c\<in>set n. \<not> (0x300 \<le> c \<and> c \<le> 0x36F))) \<and>
   normalizeSearchText basicRuntime (Some [0x386, 0x392, 0x393]) = Inr [0x3B1, 0x3B2, 0x3B3]"
proof
  show "normalizeSearchText rt t = Inr n \<longrightarrow> (\<forall>c\<in>set n. \<not> (0x300 \<le> c \<and> c \<le> 0x36F))"
    using normalizeSearchText_no_mark [of rt t n] by (simp add: isCombiningMark_def)
  show "normalizeSearchText basicRuntime (Some [0x386, 0x392, 0x393]) = Inr [0x3B1, 0x3B2, 0x3B3]"
    by (simp add: normalize_eval)
qed

lemma normalize_ora:
  "normalizeSearchText basicRuntime (Some [0x38F, 0x3C1, 0x3B1]) = Inr [0x3C9, 0x3C1, 0x3B1]"
  by (simp add: normalize_eval)

theorem normalizeSearchText_strips_marks_witness:
  "normalizeSearchText basicRuntime (Some [0x38F, 0x3C1, 0x3B1]) = Inr [0x3C9, 0x3C1, 0x3B1] \<and>
   list_all (\<lambda>c. \<not> (0x300 \<le> c \<and> c \<le> 0x36F)) [0x3C9, 0x3C1, 0x3B1 :: nat]"
  using normalizeSearchText_strips_marks
    [of basicRuntime "Some [0x38F, 0x3C1, 0x3B1]" "[0x3C9, 0x3C1, 0x3B1]"]
    normalize_ora
  by simp

subsection \<open>Splitting\<close>

text \<open>
  \<open>wordsBetween\<close> gives words without separators, none of them empty, that together
  hold every character of the text that is no separator, in the order of the text.
\<close>

lemma wordsBetween_words:
  "w \<in> set (wordsBetween sep s) \<Longrightarrow> w \<noteq> [] \<and> (\<forall>c\<in>set w. \<not> sep c)"
proof (induction sep s rule: wordsBetween.induct)
  case (1 sep)
  then show ?case by simp
next
  case (2 sep c cs)
  show ?case
  proof (cases "sep c")
    case True
    then have "w \<in> set (wordsBetween sep cs)" using "2.prems" by simp
    then show ?thesis by (rule "2.IH"(1) [OF True])
  next
    case False
    then consider "w = c # takeWhile (\<lambda>x. \<not> sep x) cs"
      | "w \<in> set (wordsBetween sep (dropWhile (\<lambda>x. \<not> sep x) cs))"
      using "2.prems" by auto
    then show ?thesis
    proof cases
      case 1
      have "\<forall>x\<in>set (takeWhile (\<lambda>x. \<not> sep x) cs). \<not> sep x"
        using set_takeWhileD by fastforce
      then show ?thesis using 1 False by simp
    next
      case 2
      show ?thesis by (rule "2.IH"(2) [OF False 2])
    qed
  qed
qed

lemma filter_takeWhile_same: "filter P (takeWhile P xs) = takeWhile P xs"
  by (induction xs) simp_all

lemma concat_wordsBetween: "concat (wordsBetween sep s) = filter (\<lambda>c. \<not> sep c) s"
proof (induction sep s rule: wordsBetween.induct)
  case (1 sep)
  show ?case by simp
next
  case (2 sep c cs)
  show ?case
  proof (cases "sep c")
    case True
    then show ?thesis using "2.IH"(1) by simp
  next
    case False
    have "filter (\<lambda>c. \<not> sep c) cs =
        filter (\<lambda>c. \<not> sep c) (takeWhile (\<lambda>x. \<not> sep x) cs @ dropWhile (\<lambda>x. \<not> sep x) cs)"
      by (simp only: takeWhile_dropWhile_id)
    also have "\<dots> = takeWhile (\<lambda>x. \<not> sep x) cs @
        filter (\<lambda>c. \<not> sep c) (dropWhile (\<lambda>x. \<not> sep x) cs)"
      by (simp only: filter_append filter_takeWhile_same)
    finally show ?thesis using False "2.IH"(2) by simp
  qed
qed

lemma wordsBetween_dropWhile: "wordsBetween sep (dropWhile sep s) = wordsBetween sep s"
  by (induction s) simp_all

lemma wordsBetween_append:
  assumes "\<forall>c\<in>set piece. \<not> sep c" and "piece \<noteq> []"
  shows "wordsBetween sep (piece @ s) =
    (piece @ takeWhile (\<lambda>x. \<not> sep x) s) # wordsBetween sep (dropWhile (\<lambda>x. \<not> sep x) s)"
proof -
  obtain p ps where piece: "piece = p # ps" using assms(2) by (cases piece) auto
  have "\<not> sep p" and ps: "\<forall>c\<in>set ps. \<not> sep c" using assms(1) piece by auto
  then show ?thesis
    unfolding piece by (simp add: takeWhile_append2 dropWhile_append2)
qed

lemma splitFrom_words:
  "\<forall>c\<in>set piece. \<not> sep c \<Longrightarrow>
   filter (\<lambda>w. w \<noteq> []) (splitFrom sep piece s) = wordsBetween sep (piece @ s)"
proof (induction sep piece s rule: splitFrom.induct)
  case (1 cls piece)
  show ?case
  proof (cases "piece = []")
    case True
    then show ?thesis by simp
  next
    case False
    then show ?thesis using wordsBetween_append [OF "1.prems" False, of "[]"] by simp
  qed
next
  case (2 cls piece c cs)
  show ?case
  proof (cases "cls c")
    case True
    have rest: "filter (\<lambda>w. w \<noteq> []) (splitFrom cls [] (dropWhile cls cs)) = wordsBetween cls cs"
      using "2.IH"(1) [OF True] by (simp add: wordsBetween_dropWhile)
    show ?thesis
    proof (cases "piece = []")
      case True
      then show ?thesis using \<open>cls c\<close> rest by simp
    next
      case False
      then show ?thesis
        using \<open>cls c\<close> rest wordsBetween_append [OF "2.prems" False, of "c # cs"] by simp
    qed
  next
    case False
    then have "\<forall>x\<in>set (piece @ [c]). \<not> cls x" using "2.prems" by simp
    then show ?thesis using "2.IH"(2) [OF False] False by simp
  qed
qed

lemma split_words: "filter (\<lambda>w. w \<noteq> []) (split sep s) = wordsBetween sep s"
  using splitFrom_words [of "[]" sep s] by (simp add: split_def)

lemma split_long_words:
  "filter (\<lambda>w. 2 \<le> length w) (split sep s) = filter (\<lambda>w. 2 \<le> length w) (wordsBetween sep s)"
proof -
  have "filter (\<lambda>w. 2 \<le> length w) (split sep s) =
      filter (\<lambda>w. 2 \<le> length w) (filter (\<lambda>w. w \<noteq> []) (split sep s))"
    by (auto simp: filter_filter intro: filter_cong)
  then show ?thesis by (simp only: split_words)
qed

lemma normalize_white_led_light_panel:
  "normalizeSearchText basicRuntime (Some (ascii ''white/led-light, panel'')) =
     Inr (ascii ''white led-light, panel'')"
  by (simp add: ascii_def normalize_eval)

lemma normalize_a_b:
  "normalizeSearchText basicRuntime (Some (ascii ''a b'')) = Inr (ascii ''a b'')"
  by (simp add: ascii_def normalize_eval)

lemma normalize_ab_ab_c:
  "normalizeSearchText basicRuntime (Some (ascii ''ab-AB c'')) = Inr (ascii ''ab-ab c'')"
  by (simp add: ascii_def normalize_eval)

lemma words_ab_ab_c:
  "wordsBetween isSeparator (ascii ''ab-ab c'') = [ascii ''ab'', ascii ''ab'', ascii ''c'']"
  by (simp add: ascii_def isSeparator_def isWhiteSpace_def)

text \<open>
  Claim C7. \<open>tokenize\<close> normalizes its input, splits it on runs of white space, hyphens,
  slashes and commas, and keeps the tokens of at least two characters, in their order
  and with their duplicates. In particular \<open>tokenize("white/led-light, panel")\<close> is
  \<open>["white", "led", "light", "panel"]\<close> and \<open>tokenize("a b")\<close> is empty.
\<close>

theorem tokenize_words:
  "(normalizeSearchText rt t = Inr n \<longrightarrow>
      tokenize rt t = Inr (filter (\<lambda>w. 2 \<le> length w) (wordsBetween isSeparator n))) \<and>
   tokenize basicRuntime (Some (ascii ''white/led-light, panel'')) =
     Inr [ascii ''white'', ascii ''led'', ascii ''light'', ascii ''panel''] \<and>
   tokenize basicRuntime (Some (ascii ''a b'')) = Inr []"
proof (intro conjI impI)
  assume "normalizeSearchText rt t = Inr n"
  then show "tokenize rt t = Inr (filter (\<lambda>w. 2 \<le> length w) (wordsBetween isSeparator n))"
    by (simp add: tokenize_eq split_long_words)
next
  show "tokenize basicRuntime (Some (ascii ''white/led-light, panel'')) =
     Inr [ascii ''white'', ascii ''led'', ascii ''light'', ascii ''panel'']"
    by (simp add: tokenize_eq [OF normalize_white_led_light_panel])
       (simp add: ascii_def split_eval)
next
  show "tokenize basicRuntime (Some (ascii ''a b'')) = Inr []"
    by (simp add: tokenize_eq [OF normalize_a_b]) (simp add: ascii_def split_eval)
qed

theorem tokenize_words_witness:
  "normalizeSearchText basicRuntime (Some (ascii ''ab-AB c'')) = Inr (ascii ''ab-ab c'') \<and>
   wordsBetween isSeparator (ascii ''ab-ab c'') = [ascii ''ab'', ascii ''ab'', ascii ''c''] \<and>
   tokenize basicRuntime (Some (ascii ''ab-AB c'')) = Inr [ascii ''ab'', ascii ''ab'']"
proof -
  have "tokenize basicRuntime (Some (ascii ''ab-AB c'')) = Inr [ascii ''ab'', ascii ''ab'']"
    using tokenize_words [of basicRuntime "Some (ascii ''ab-AB c'')" "ascii ''ab-ab c''"]
      normalize_ab_ab_c words_ab_ab_c
    by (simp add: ascii_def)
  then show ?thesis using normalize_ab_ab_c words_ab_ab_c by simp
qed

subsection \<open>Two inputs on which the code departs from its documentation\<close>

lemma normalize_slash_a:
  "normalizeSearchText basicRuntime (Some (ascii ''/a'')) = Inr (ascii '' a'')"
  by (simp add: ascii_def normalize_eval)

lemma normalize_space_a:
  "normalizeSearchText basicRuntime (Some (ascii '' a'')) = Inr (ascii ''a'')"
  by (simp add: ascii_def normalize_eval)

text \<open>
  Claim C1 says that \<open>normalizeSearchText\<close> is idempotent: normalizing a normalized text
  changes nothing. The code is not, on the text \<open>"/a"\<close>: white space is trimmed before
  the slashes become spaces, so the result \<open>" a"\<close> starts with a space, and normalizing
  this result gives \<open>"a"\<close>.
\<close>

theorem normalizeSearchText_slash_twice:
  "normalizeSearchText basicRuntime (Some (ascii ''/a'')) = Inr (ascii '' a'') \<and>
   normalizeSearchText basicRuntime (Some (ascii '' a'')) = Inr (ascii ''a'') \<and>
   bindE (normalizeSearchText basicRuntime (Some (ascii ''/a'')))
     (\<lambda>n. normalizeSearchText basicRuntime (Some n)) \<noteq>
   normalizeSearchText basicRuntime (Some (ascii ''/a''))"
  by (simp add: normalize_slash_a normalize_space_a bindE_Inr) (simp add: ascii_def)

text \<open>
  The leading space counts in the check of the minimum length of \<open>matchesSearch\<close>: the
  one-letter search term \<open>a\<close> is refused, and \<open>/a\<close> is searched for as \<open>" a"\<close>.
\<close>

lemma normalize_x_a:
  "normalizeSearchText basicRuntime (Some (ascii ''x a'')) = Inr (ascii ''x a'')"
  by (simp add: ascii_def normalize_eval)

lemma slash_a_passes_length_check:
  "matchesSearch basicRuntime (Some (ascii ''a'')) (Some (ascii ''x a'')) = Inr False \<and>
   matchesSearch basicRuntime (Some (ascii ''/a'')) (Some (ascii ''x a'')) = Inr True"
proof
  show "matchesSearch basicRuntime (Some (ascii ''a'')) (Some (ascii ''x a'')) = Inr False"
    by (rule matchesSearch_short [OF normalize_a]) (simp add: ascii_def)
  show "matchesSearch basicRuntime (Some (ascii ''/a'')) (Some (ascii ''x a'')) = Inr True"
    using matchesSearch_eq [OF _ _ normalize_slash_a normalize_x_a
        tokenize_eq [OF normalize_slash_a] tokenize_eq [OF normalize_x_a]]
    by (simp add: falsy_def ascii_def startsWith_def)
qed

subsection \<open>Normalizing a normalized text\<close>

lemma dropWhile_replaceRuns:
  assumes "s = [] \<or> \<not> cls (hd s)"
  shows "dropWhile cls (replaceRuns cls b s) = replaceRuns cls b s"
  using assms by (cases s) auto

lemma dropWhile_hd: "dropWhile cls s = [] \<or> \<not> cls (hd (dropWhile cls s))"
  by (metis hd_dropWhile)

lemma replaceRuns_twice:
  "cls b \<Longrightarrow> replaceRuns cls b (replaceRuns cls b s) = replaceRuns cls b s"
proof (induction cls b s rule: replaceRuns.induct)
  case (1 cls b)
  show ?case by simp
next
  case (2 cls b c cs)
  show ?case
  proof (cases "cls c")
    case True
    have "dropWhile cls (replaceRuns cls b (dropWhile cls cs)) =
        replaceRuns cls b (dropWhile cls cs)"
      by (rule dropWhile_replaceRuns) (rule dropWhile_hd)
    then show ?thesis using True "2.IH"(1) "2.prems" by simp
  next
    case False
    then show ?thesis using "2.IH"(2) "2.prems" by simp
  qed
qed

lemma replaceChar_id: "a \<notin> set s \<Longrightarrow> replaceChar a b s = s"
  by (induction s) (auto simp: replaceChar_def)

lemma replaceClass_id: "\<forall>c\<in>set s. \<not> cls c \<Longrightarrow> replaceClass cls b s = s"
  by (induction s) (auto simp: replaceClass_def)

lemma removeClass_id: "\<forall>c\<in>set s. \<not> cls c \<Longrightarrow> removeClass cls s = s"
  by (induction s) (auto simp: removeClass_def)

lemma replaceChar_absent: "a \<noteq> b \<Longrightarrow> a \<notin> set (replaceChar a b s)"
  by (auto simp: replaceChar_def)

lemma replaceChar_keeps_absent: "x \<notin> set s \<Longrightarrow> x \<noteq> b \<Longrightarrow> x \<notin> set (replaceChar a b s)"
  by (auto simp: replaceChar_def)

lemma replaceClass_keeps_absent: "x \<notin> set s \<Longrightarrow> x \<noteq> b \<Longrightarrow> x \<notin> set (replaceClass cls b s)"
  using set_replaceClass [of cls b s] by auto

lemma replaceRuns_keeps_absent: "x \<notin> set s \<Longrightarrow> x \<noteq> b \<Longrightarrow> x \<notin> set (replaceRuns cls b s)"
  using set_replaceRuns [of cls b s] by auto

lemma replaceClass_absent: "\<not> cls b \<Longrightarrow> \<forall>c\<in>set (replaceClass cls b s). \<not> cls c"
  by (auto simp: replaceClass_def)

lemma foldGreek_absent:
  "0x3AC \<notin> set (foldGreek s)" "0x3AD \<notin> set (foldGreek s)" "0x3AE \<notin> set (foldGreek s)"
  "0x3AF \<notin> set (foldGreek s)" "0x3CC \<notin> set (foldGreek s)" "0x3CD \<notin> set (foldGreek s)"
  "0x3CE \<notin> set (foldGreek s)" "0x390 \<notin> set (foldGreek s)" "0x3B0 \<notin> set (foldGreek s)"
  "0x3C2 \<notin> set (foldGreek s)"
  unfolding foldGreek_chain
  by ((intro replaceChar_absent replaceChar_keeps_absent; simp)+)


lemma normalizeChain_fixed:
  assumes "toLowerCase rt n = n" and "trim n = n" and "normalizeNFD rt n = n"
    and n: "n = normalizeChain rt s"
  shows "normalizeChain rt n = n"
proof -
  define v where "v = foldGreek (removeClass isCombiningMark
    (normalizeNFD rt (trim (toLowerCase rt s))))"
  have n_eq: "n = replaceRuns isWhiteSpace 0x20 (replaceClass isSlash 0x20 v)"
    unfolding n v_def normalizeChain_chain ..
  have marks: "removeClass isCombiningMark n = n"
    unfolding n by (rule removeClass_id) (rule normalizeChain_no_mark)
  have "0x3AC \<notin> set n" "0x3AD \<notin> set n" "0x3AE \<notin> set n" "0x3AF \<notin> set n"
    "0x3CC \<notin> set n" "0x3CD \<notin> set n" "0x3CE \<notin> set n" "0x390 \<notin> set n"
    "0x3B0 \<notin> set n" "0x3C2 \<notin> set n"
    unfolding n_eq v_def
    by (intro replaceRuns_keeps_absent replaceClass_keeps_absent foldGreek_absent; simp)+
  then have greek: "foldGreek n = n"
    unfolding foldGreek_chain by (simp add: replaceChar_id)
  have "\<forall>c\<in>set (replaceClass isSlash 0x20 v). \<not> isSlash c"
    by (rule replaceClass_absent) (simp add: isSlash_def)
  moreover have "\<not> isSlash 0x20" by (simp add: isSlash_def)
  ultimately have "\<forall>c\<in>set n. \<not> isSlash c"
    unfolding n_eq using set_replaceRuns [of isWhiteSpace "0x20" "replaceClass isSlash 0x20 v"]
    by auto
  then have slashes: "replaceClass isSlash 0x20 n = n"
    by (rule replaceClass_id)
  have "isWhiteSpace 0x20" by (simp add: isWhiteSpace_def)
  then have runs: "replaceRuns isWhiteSpace 0x20 n = n"
    unfolding n_eq by (rule replaceRuns_twice)
  show ?thesis
    unfolding normalizeChain_chain [of rt n]
    by (simp only: assms(1,2,3) marks greek slashes runs)
qed

lemma normalize_White_slash_LED:
  "normalizeSearchText basicRuntime (Some (ascii ''White/LED'')) = Inr (ascii ''white led'')"
  by (simp add: ascii_def normalize_eval)

lemma trim_white_led: "trim (ascii ''white led'') = ascii ''white led''"
  by (simp add: ascii_def trim_def isWhiteSpace_def)

lemma lower_white_led: "toLowerCase basicRuntime (ascii ''white led'') = ascii ''white led''"
  by (simp add: ascii_def toLowerCase_basic lowerUnit_def)

lemma nfd_white_led: "normalizeNFD basicRuntime (ascii ''white led'') = ascii ''white led''"
  by (simp add: ascii_def normalizeNFD_basic decomposeUnit_def)

text \<open>
  Where \<open>normalizeSearchText\<close> is idempotent: when its result neither starts nor ends
  with white space and the built-ins \<open>toLowerCase\<close> and \<open>normalize('NFD')\<close> leave the
  result as it is, normalizing the result gives the result again. The other steps (the
  removal of the marks, the ten replacements of Greek letters, the slashes, the runs of
  white space) never change a normalized text.
\<close>

theorem normalizeSearchText_idempotent_if_trimmed:
  assumes "normalizeSearchText rt t = Inr n"
    and "trim n = n" and "toLowerCase rt n = n" and "normalizeNFD rt n = n"
  shows "normalizeSearchText rt (Some n) = Inr n"
proof (cases "n = []")
  case True
  then show ?thesis by (simp add: normalizeSearchText_falsy falsy_Some)
next
  case False
  then have "\<not> falsy t"
    using assms(1) normalizeSearchText_falsy [of t rt] by auto
  then obtain s where s: "t = Some s" "s \<noteq> []" by (cases t) (auto simp: falsy_def)
  then have "n = normalizeChain rt s"
    using assms(1) by (simp add: normalizeSearchText_truthy)
  then have "normalizeChain rt n = n"
    using assms(2,3,4) by (intro normalizeChain_fixed)
  then show ?thesis using False by (simp add: normalizeSearchText_truthy)
qed

theorem normalizeSearchText_idempotent_if_trimmed_witness:
  "normalizeSearchText basicRuntime (Some (ascii ''White/LED'')) = Inr (ascii ''white led'') \<and>
   trim (ascii ''white led'') = ascii ''white led'' \<and>
   toLowerCase basicRuntime (ascii ''white led'') = ascii ''white led'' \<and>
   normalizeNFD basicRuntime (ascii ''white led'') = ascii ''white led'' \<and>
   normalizeSearchText basicRuntime (Some (ascii ''white led'')) = Inr (ascii ''white led'')"
  using normalizeSearchText_idempotent_if_trimmed [OF normalize_White_slash_LED trim_white_led
      lower_white_led nfd_white_led]
    normalize_White_slash_LED trim_white_led lower_white_led nfd_white_led
  by simp

lemma normalize_Mirror:
  "normalizeSearchText basicRuntime (Some (ascii ''Mirror'')) = Inr (ascii ''mirror'')"
  by (simp add: ascii_def normalize_eval)

lemma normalize_black:
  "normalizeSearchText basicRuntime (Some (ascii ''black'')) = Inr (ascii ''black'')"
  by (simp add: ascii_def normalize_eval)

lemma normalize_glass:
  "normalizeSearchText basicRuntime (Some (ascii ''glass'')) = Inr (ascii ''glass'')"
  by (simp add: ascii_def normalize_eval)

lemma tokenize_white: "tokenize basicRuntime (Some (ascii ''white'')) = Inr [ascii ''white'']"
  by (simp add: tokenize_eq [OF normalize_white]) (simp add: ascii_def split_eval)

lemma tokenize_Mirror: "tokenize basicRuntime (Some (ascii ''Mirror'')) = Inr [ascii ''mirror'']"
  by (simp add: tokenize_eq [OF normalize_Mirror]) (simp add: ascii_def split_eval)

lemma tokenize_black: "tokenize basicRuntime (Some (ascii ''black'')) = Inr [ascii ''black'']"
  by (simp add: tokenize_eq [OF normalize_black]) (simp add: ascii_def split_eval)

lemma tokenize_glass: "tokenize basicRuntime (Some (ascii ''glass'')) = Inr [ascii ''glass'']"
  by (simp add: tokenize_eq [OF normalize_glass]) (simp add: ascii_def split_eval)

lemma white_not_Mirror:
  "matchesSearch basicRuntime (Some (ascii ''white'')) (Some (ascii ''Mirror'')) = Inr False"
  using matchesSearch_eq [OF _ _ normalize_white normalize_Mirror tokenize_white tokenize_Mirror]
  by (simp add: falsy_def ascii_def startsWith_def)

lemma white_not_black:
  "matchesSearch basicRuntime (Some (ascii ''white'')) (Some (ascii ''black'')) = Inr False"
  using matchesSearch_eq [OF _ _ normalize_white normalize_black tokenize_white tokenize_black]
  by (simp add: falsy_def ascii_def startsWith_def)

lemma white_not_glass:
  "matchesSearch basicRuntime (Some (ascii ''white'')) (Some (ascii ''glass'')) = Inr False"
  using matchesSearch_eq [OF _ _ normalize_white normalize_glass tokenize_white tokenize_glass]
  by (simp add: falsy_def ascii_def startsWith_def)

text \<open>
  Claim C2 says that the result of \<open>debugSearch\<close> has an entry for every field of the
  product on which \<open>matchesSearch\<close> succeeds, the English description, the tags, the
  category and the subcategory included. The code looks at the name, the English name,
  the description, the colors, the materials and the features only (\<open>debugSearch_eq\<close>):
  a product whose only match for \<open>white\<close> is one of its tags is found by
  \<open>searchProduct\<close>, and \<open>debugSearch\<close> reports no match for it.
\<close>

theorem debugSearch_misses_tags:
  "matchesSearchArray basicRuntime (Some (ascii ''white'')) (tags taggedProduct) = Inr True \<and>
   searchProduct basicRuntime (Some taggedProduct) (Some (ascii ''white'')) = Inr True \<and>
   debugSearch basicRuntime (Some taggedProduct) (Some (ascii ''white'')) = Inr []"
proof (intro conjI)
  have len: "2 \<le> length (ascii ''white'')" by (simp add: ascii_def)
  have blank: "trim (ascii ''white'') \<noteq> []"
    by (simp add: ascii_def trim_def isWhiteSpace_def)
  show tags: "matchesSearchArray basicRuntime (Some (ascii ''white'')) (tags taggedProduct)
      = Inr True"
    by (simp add: taggedProduct_def matchesSearchArray_white)
  show "searchProduct basicRuntime (Some taggedProduct) (Some (ascii ''white'')) = Inr True"
    using searchProduct_fields [OF blank normalize_white len, of taggedProduct] tags
    by (simp add: taggedProduct_def)
  show "debugSearch basicRuntime (Some taggedProduct) (Some (ascii ''white'')) = Inr []"
    by (simp add: debugSearch_eq taggedProduct_def white_not_Mirror white_not_black
        white_not_glass)
qed

end
